theory Spec2Isabelle
  imports Main
begin

section \<open>The CRDP multiplexor (crdpMultiplexor.ts)\<close>

text \<open>
  The multiplexor shares one socket between up to ten channels. The embedding follows
  \<^verbatim>\<open>src/chrome/crdpMultiplexing/crdpMultiplexor.ts\<close> function by function.

  Conventions of the embedding:
  \<^item> JavaScript numbers that carry ids are integers (\<open>int\<close>); the arithmetic of the
    source is exact on them as long as the values stay below \<open>2^53\<close>.
  \<^item> The wire text is represented by the envelope that \<^verbatim>\<open>JSON.parse\<close> yields: the
    optional \<^verbatim>\<open>id\<close>, the optional \<^verbatim>\<open>method\<close> and the remaining fields, kept opaque.
    \<^verbatim>\<open>JSON.stringify\<close> of an envelope is the envelope.
  \<^item> A listener is an opaque identity. Calling it appends one entry to the trace
    \<open>delivered\<close>; listeners do not call back into the multiplexor.
  \<^item> The objects used as dictionaries (\<^verbatim>\<open>_enabledDomains\<close>,
    \<^verbatim>\<open>_pendingMessagesForDomain\<close>) are plain objects: a key that the object does
    not own is looked up in \<^verbatim>\<open>Object.prototype\<close>, and the model does the same.
  \<^item> Ids and methods have their declared types (\<^verbatim>\<open>number\<close>, \<^verbatim>\<open>string\<close>), and the
    text is well-formed JSON.
  \<^item> A \<^verbatim>\<open>throw\<close> is the outcome \<open>Raised\<close>, which carries the state the statement
    left behind, since mutations made before a throw persist.
\<close>

subsection \<open>Data\<close>

type_synonym callback = nat

record message =
  id_msg :: "int option"
  method_msg :: "string option"
  rest_msg :: string

datatype critical =
    MethodNotTwoParts string
  | NoIdNorMethod message
  | ChannelNotFound int message
  | SentWithoutId string message

datatype error =
    CriticalError critical
  | CapacityError
  | TypeError

datatype ('r, 's) outcome = Done 'r 's | Raised error 's

datatype socket_call =
    SocketOnMessage
  | SocketOn string callback
  | SocketRemoveListener string callback
  | SocketSend message

type_synonym delivery = "int \<times> callback \<times> message"

record world =
  socket :: "socket_call list"
  delivered :: "delivery list"
  timers :: "(int \<times> nat) list"

record channel =
  name_ch :: string
  id_ch :: int
  messageCallbacks :: "callback list"
  enabledDomains :: "string set"
  pendingMessagesForDomain :: "(string \<rightharpoonup> message list) option"

subsection \<open>JavaScript primitives used by the source\<close>

text \<open>\<^verbatim>\<open>Number.MAX_SAFE_INTEGER\<close>.\<close>

definition MAX_SAFE_INTEGER :: int where
  "MAX_SAFE_INTEGER = 2 ^ 53 - 1"

text \<open>The operator \<^verbatim>\<open>%\<close>: the remainder takes the sign of the dividend.\<close>

definition js_rem :: "int \<Rightarrow> int \<Rightarrow> int" where
  "js_rem a b = sgn a * (\<bar>a\<bar> mod \<bar>b\<bar>)"

text \<open>\<^verbatim>\<open>String.prototype.split\<close> with a one-character separator.\<close>

fun split_on :: "char \<Rightarrow> string \<Rightarrow> string list" where
  "split_on c [] = [[]]"
| "split_on c (x # xs) =
     (if x = c then [] # split_on c xs
      else (case split_on c xs of [] \<Rightarrow> [[x]] | p # ps \<Rightarrow> (x # p) # ps))"

text \<open>\<^verbatim>\<open>String.prototype.endsWith\<close>.\<close>

definition endsWith :: "string \<Rightarrow> string \<Rightarrow> bool" where
  "endsWith s suffix =
     (length suffix \<le> length s \<and> drop (length s - length suffix) s = suffix)"

text \<open>\<^verbatim>\<open>Array.prototype.indexOf\<close>: the first index of the element, or \<open>-1\<close>.\<close>

fun indexOf :: "'a list \<Rightarrow> 'a \<Rightarrow> int" where
  "indexOf [] x = - 1"
| "indexOf (y # ys) x =
     (if y = x then 0 else (let i = indexOf ys x in if i < 0 then - 1 else i + 1))"

text \<open>
  \<^verbatim>\<open>Array.prototype.splice(start, deleteCount)\<close>: a negative start counts from the end,
  and both numbers are clamped to the array.
\<close>

definition splice_js :: "'a list \<Rightarrow> int \<Rightarrow> int \<Rightarrow> 'a list" where
  "splice_js xs start deleteCount =
     (let len = int (length xs);
          s = (if start < 0 then max (len + start) 0 else min start len);
          k = min (max deleteCount 0) (len - s)
      in take (nat s) xs @ drop (nat (s + k)) xs)"

text \<open>Reading \<^verbatim>\<open>array[k]\<close>: \<^verbatim>\<open>undefined\<close> outside the array.\<close>

definition element_at :: "'a list \<Rightarrow> int \<Rightarrow> 'a option" where
  "element_at xs k = (if 0 \<le> k \<and> k < int (length xs) then Some (xs ! nat k) else None)"

text \<open>
  Property lookup on a plain object. Both dictionaries of a channel are created as
  \<^verbatim>\<open>{}\<close>, so \<^verbatim>\<open>obj[key]\<close> for a key that the object does not own is answered by
  \<^verbatim>\<open>Object.prototype\<close>. \<open>objectPrototypeMember\<close> lists the property names of
  \<^verbatim>\<open>Object.prototype\<close> (ECMAScript, with the accessors of its Annex B). Their values
  are functions, or the prototype itself for \<^verbatim>\<open>__proto__\<close>: each is truthy, none is
  \<^verbatim>\<open>undefined\<close>, and none has a method \<^verbatim>\<open>push\<close> or \<^verbatim>\<open>forEach\<close>.
\<close>

definition objectPrototypeMember :: "string \<Rightarrow> bool" where
  "objectPrototypeMember key =
     (key \<in> set [''constructor'', ''hasOwnProperty'', ''isPrototypeOf'',
                 ''propertyIsEnumerable'', ''toLocaleString'', ''toString'', ''valueOf'',
                 ''__proto__'', ''__defineGetter__'', ''__defineSetter__'',
                 ''__lookupGetter__'', ''__lookupSetter__''])"

datatype 'a property = Own 'a | Inherited | Undefined

definition getProperty :: "(string \<rightharpoonup> 'a) \<Rightarrow> string \<Rightarrow> 'a property" where
  "getProperty obj key =
     (case obj key of
        Some v \<Rightarrow> Own v
      | None \<Rightarrow> if objectPrototypeMember key then Inherited else Undefined)"

text \<open>
  \<^verbatim>\<open>_enabledDomains\<close>. Its only write in the source stores \<^verbatim>\<open>true\<close>, so the object
  is the set of its own keys. \<open>isEnabledDomain\<close> is the truthiness of
  \<^verbatim>\<open>this._enabledDomains[domain]\<close>; \<open>enableDomain\<close> is the assignment
  \<^verbatim>\<open>this._enabledDomains[domain] = true\<close>, which for the key \<^verbatim>\<open>__proto__\<close> runs the
  setter of the prototype, and that ignores a value that is not an object.
\<close>

definition isEnabledDomain :: "string set \<Rightarrow> string \<Rightarrow> bool" where
  "isEnabledDomain own domain = (domain \<in> own \<or> objectPrototypeMember domain)"

definition enableDomain :: "string set \<Rightarrow> string \<Rightarrow> string set" where
  "enableDomain own domain = (if domain = ''__proto__'' then own else insert domain own)"

subsection \<open>Module-level functions\<close>

definition extractDomain :: "string \<Rightarrow> error + string" where
  "extractDomain method =
     (let methodParts = split_on CHR ''.'' method
      in if length methodParts = 2 then Inr (methodParts ! 0)
         else Inl (CriticalError (MethodNotTwoParts method)))"

definition encodifyChannel :: "int \<Rightarrow> int \<Rightarrow> int" where
  "encodifyChannel channelId i = i * 10 + channelId"

definition decodifyChannelId :: "int \<Rightarrow> int" where
  "decodifyChannelId encodifiedId = js_rem encodifiedId 10"

definition decodifyId :: "int \<Rightarrow> int" where
  "decodifyId encodifiedId = encodifiedId div 10"

subsection \<open>CRDPChannel\<close>

definition timeToPreserveMessagesInMillis :: nat where
  "timeToPreserveMessagesInMillis = 60 * 1000"

definition new_CRDPChannel :: "string \<Rightarrow> int \<Rightarrow> channel" where
  "new_CRDPChannel nm i =
     \<lparr>name_ch = nm, id_ch = i, messageCallbacks = [], enabledDomains = {},
      pendingMessagesForDomain = Some Map.empty\<rparr>"

definition callMessageCallbacks :: "channel \<Rightarrow> message \<Rightarrow> world \<Rightarrow> world" where
  "callMessageCallbacks ch messageData w =
     w\<lparr>delivered := delivered w @
          map (\<lambda>cb. (id_ch ch, cb, messageData)) (messageCallbacks ch)\<rparr>"

text \<open>
  \<open>storeMessageForLater\<close> is private and only reached with a live buffer, which is
  its argument here. When the lookup finds an inherited value, that value is not
  \<^verbatim>\<open>undefined\<close>, no queue is created, and the call of \<^verbatim>\<open>push\<close> on it throws a
  \<^verbatim>\<open>TypeError\<close>.
\<close>

definition storeMessageForLater ::
  "string \<Rightarrow> message \<Rightarrow> (string \<rightharpoonup> message list) \<Rightarrow> error + (string \<rightharpoonup> message list)" where
  "storeMessageForLater domain messageData pending =
     (let pending1 = (case getProperty pending domain of
                        Undefined \<Rightarrow> pending(domain \<mapsto> [])
                      | Own _ \<Rightarrow> pending
                      | Inherited \<Rightarrow> pending)
      in case getProperty pending1 domain of
           Own messagesForDomain \<Rightarrow> Inr (pending1(domain \<mapsto> messagesForDomain @ [messageData]))
         | Inherited \<Rightarrow> Inl TypeError
         | Undefined \<Rightarrow> Inl TypeError)"

definition callDomainMessageCallbacks ::
  "string \<Rightarrow> message \<Rightarrow> channel \<times> world \<Rightarrow> (unit, channel \<times> world) outcome" where
  "callDomainMessageCallbacks domain messageData s =
     (case s of (ch, w) \<Rightarrow>
        if isEnabledDomain (enabledDomains ch) domain
        then Done () (ch, callMessageCallbacks ch messageData w)
        else (case pendingMessagesForDomain ch of
                Some pending \<Rightarrow>
                  (case storeMessageForLater domain messageData pending of
                     Inl e \<Rightarrow> Raised e (ch, w)
                   | Inr pending1 \<Rightarrow>
                       Done () (ch\<lparr>pendingMessagesForDomain := Some pending1\<rparr>, w))
              | None \<Rightarrow> Done () (ch, w)))"

subsection \<open>CRDPMultiplexor.send\<close>

definition Multiplexor_send :: "channel \<Rightarrow> message \<Rightarrow> world \<Rightarrow> (unit, world) outcome" where
  "Multiplexor_send ch message w =
     (case id_msg message of
        Some i \<Rightarrow>
          Done () (w\<lparr>socket := socket w @
            [SocketSend (message\<lparr>id_msg := Some (encodifyChannel (id_ch ch) i)\<rparr>)]\<rparr>)
      | None \<Rightarrow> Raised (CriticalError (SentWithoutId (name_ch ch) message)) w)"

subsection \<open>CRDPChannel, continued\<close>

text \<open>The loop \<^verbatim>\<open>pendingMessagesData.forEach\<close>; it stops at the first call that throws.\<close>

fun forEachPending ::
  "string \<Rightarrow> message list \<Rightarrow> channel \<times> world \<Rightarrow> (unit, channel \<times> world) outcome" where
  "forEachPending domain [] s = Done () s"
| "forEachPending domain (pendingMessageData # rest) s =
     (case callDomainMessageCallbacks domain pendingMessageData s of
        Raised e s1 \<Rightarrow> Raised e s1
      | Done _ s1 \<Rightarrow> forEachPending domain rest s1)"

text \<open>
  Reading a property of \<^verbatim>\<open>null\<close> throws a \<^verbatim>\<open>TypeError\<close>: the first statement of
  \<open>sendUnsentPendingMessages\<close> indexes \<^verbatim>\<open>_pendingMessagesForDomain\<close> without a
  test for \<^verbatim>\<open>null\<close>. An inherited value passes the test against \<^verbatim>\<open>undefined\<close>;
  with a listener present, \<^verbatim>\<open>delete\<close> then finds no own key to remove and the call of
  \<^verbatim>\<open>forEach\<close> on the value throws a \<^verbatim>\<open>TypeError\<close>.
\<close>

definition sendUnsentPendingMessages ::
  "string \<Rightarrow> channel \<times> world \<Rightarrow> (unit, channel \<times> world) outcome" where
  "sendUnsentPendingMessages domain s =
     (case s of (ch, w) \<Rightarrow>
        (case pendingMessagesForDomain ch of
           None \<Rightarrow> Raised TypeError (ch, w)
         | Some pending \<Rightarrow>
             (case getProperty pending domain of
                Own pendingMessagesData \<Rightarrow>
                  if length (messageCallbacks ch) \<noteq> 0
                  then forEachPending domain pendingMessagesData
                         (ch\<lparr>pendingMessagesForDomain := Some (pending(domain := None))\<rparr>, w)
                  else Done () (ch, w)
              | Inherited \<Rightarrow>
                  if length (messageCallbacks ch) \<noteq> 0
                  then Raised TypeError (ch, w)
                  else Done () (ch, w)
              | Undefined \<Rightarrow> Done () (ch, w))))"

definition isEnableMethod :: "string option \<Rightarrow> bool" where
  "isEnableMethod method =
     (case method of None \<Rightarrow> False | Some m \<Rightarrow> m \<noteq> [] \<and> endsWith m ''.enable'')"

text \<open>
  \<open>send\<close> of the channel. \<open>isEnableMethod\<close> holds only of a method that is present,
  so \<open>the\<close> below is always applied to \<open>Some\<close>. The domain is marked before the
  message is forwarded, and the mark stays when forwarding raises.
\<close>

definition Channel_send ::
  "message \<Rightarrow> channel \<times> world \<Rightarrow> (unit, channel \<times> world) outcome" where
  "Channel_send messageData s =
     (case s of (ch, w) \<Rightarrow>
        if isEnableMethod (method_msg messageData)
        then (case extractDomain (the (method_msg messageData)) of
                Inl e \<Rightarrow> Raised e (ch, w)
              | Inr domain \<Rightarrow>
                  (let ch1 = ch\<lparr>enabledDomains := enableDomain (enabledDomains ch) domain\<rparr>
                   in case Multiplexor_send ch1 messageData w of
                        Raised e w1 \<Rightarrow> Raised e (ch1, w1)
                      | Done _ w1 \<Rightarrow> sendUnsentPendingMessages domain (ch1, w1)))
        else (case Multiplexor_send ch messageData w of
                Raised e w1 \<Rightarrow> Raised e (ch, w1)
              | Done _ w1 \<Rightarrow> Done () (ch, w1)))"

text \<open>
  The timer callback. \<^verbatim>\<open>Object.keys(null)\<close> in its log line throws a
  \<^verbatim>\<open>TypeError\<close> before the assignment.
\<close>

definition discardUnsentPendingMessages :: "channel \<Rightarrow> (unit, channel) outcome" where
  "discardUnsentPendingMessages ch =
     (case pendingMessagesForDomain ch of
        None \<Rightarrow> Raised TypeError ch
      | Some _ \<Rightarrow> Done () (ch\<lparr>pendingMessagesForDomain := None\<rparr>))"

definition addListenerOfNonMultiplexedEvent :: "string \<Rightarrow> callback \<Rightarrow> world \<Rightarrow> world" where
  "addListenerOfNonMultiplexedEvent event cb w = w\<lparr>socket := socket w @ [SocketOn event cb]\<rparr>"

definition removeListenerOfNonMultiplexedEvent :: "string \<Rightarrow> callback \<Rightarrow> world \<Rightarrow> world" where
  "removeListenerOfNonMultiplexedEvent event cb w =
     w\<lparr>socket := socket w @ [SocketRemoveListener event cb]\<rparr>"

text \<open>\<^verbatim>\<open>setTimeout\<close> records the channel whose buffer the timer will discard, and the delay.\<close>

definition Channel_on :: "string \<Rightarrow> callback \<Rightarrow> channel \<times> world \<Rightarrow> channel \<times> world" where
  "Channel_on event cb s =
     (case s of (ch, w) \<Rightarrow>
        if event = ''message''
        then (let w1 = (if length (messageCallbacks ch) = 0
                        then w\<lparr>timers := timers w @ [(id_ch ch, timeToPreserveMessagesInMillis)]\<rparr>
                        else w)
              in (ch\<lparr>messageCallbacks := messageCallbacks ch @ [cb]\<rparr>, w1))
        else (ch, addListenerOfNonMultiplexedEvent event cb w))"

definition Channel_removeListener ::
  "string \<Rightarrow> callback \<Rightarrow> channel \<times> world \<Rightarrow> channel \<times> world" where
  "Channel_removeListener event cb s =
     (case s of (ch, w) \<Rightarrow>
        if event = ''message''
        then (let index = indexOf (messageCallbacks ch) cb
              in (ch\<lparr>messageCallbacks := splice_js (messageCallbacks ch) index 1\<rparr>, w))
        else (ch, removeListenerOfNonMultiplexedEvent event cb w))"

subsection \<open>CRDPMultiplexor\<close>

text \<open>The constructor: no channel yet, and one subscription to the socket's messages.\<close>

definition new_CRDPMultiplexor :: "world \<Rightarrow> channel list \<times> world" where
  "new_CRDPMultiplexor w = ([], w\<lparr>socket := socket w @ [SocketOnMessage]\<rparr>)"

definition onResponseMessage ::
  "int \<Rightarrow> message \<Rightarrow> channel list \<times> world \<Rightarrow> (unit, channel list \<times> world) outcome" where
  "onResponseMessage i message s =
     (case s of (channels, w) \<Rightarrow>
        (case element_at channels (decodifyChannelId i) of
           Some ch \<Rightarrow>
             Done () (channels,
               callMessageCallbacks ch (message\<lparr>id_msg := Some (decodifyId i)\<rparr>) w)
         | None \<Rightarrow> Raised (CriticalError (ChannelNotFound i message)) (channels, w)))"

text \<open>
  The loop over \<^verbatim>\<open>this._channels\<close> in \<open>onDomainNotification\<close>. A call that throws
  ends the loop: the channels before it keep what they received, the ones after it are
  not reached.
\<close>

fun notifyChannels ::
  "string \<Rightarrow> message \<Rightarrow> channel list \<Rightarrow> world \<Rightarrow> (unit, channel list \<times> world) outcome" where
  "notifyChannels domain message [] w = Done () ([], w)"
| "notifyChannels domain message (ch # chs) w =
     (case callDomainMessageCallbacks domain message (ch, w) of
        Raised e (ch1, w1) \<Rightarrow> Raised e (ch1 # chs, w1)
      | Done _ (ch1, w1) \<Rightarrow>
          (case notifyChannels domain message chs w1 of
             Raised e (chs1, w2) \<Rightarrow> Raised e (ch1 # chs1, w2)
           | Done _ (chs1, w2) \<Rightarrow> Done () (ch1 # chs1, w2)))"

definition onDomainNotification ::
  "string \<Rightarrow> message \<Rightarrow> channel list \<times> world \<Rightarrow> (unit, channel list \<times> world) outcome" where
  "onDomainNotification method message s =
     (case s of (channels, w) \<Rightarrow>
        (case extractDomain method of
           Inl e \<Rightarrow> Raised e (channels, w)
         | Inr domain \<Rightarrow> notifyChannels domain message channels w))"

definition onMessage ::
  "message \<Rightarrow> channel list \<times> world \<Rightarrow> (unit, channel list \<times> world) outcome" where
  "onMessage message s =
     (case id_msg message of
        Some i \<Rightarrow> onResponseMessage i message s
      | None \<Rightarrow>
          (case method_msg message of
             None \<Rightarrow> Raised (CriticalError (NoIdNorMethod message)) s
           | Some m \<Rightarrow>
               if m \<noteq> [] then onDomainNotification m message s
               else Raised (CriticalError (NoIdNorMethod message)) s))"

definition addChannel :: "string \<Rightarrow> channel list \<Rightarrow> (channel option, channel list) outcome" where
  "addChannel channelName channels =
     (if length channels \<ge> 10 then Raised CapacityError channels
      else (let ch = new_CRDPChannel channelName (int (length channels))
            in Done (Some ch) (channels @ [ch])))"

section \<open>Runs and sample states\<close>

text \<open>
  A sequence of \<open>addChannel\<close> calls on one multiplexor; a caller that catches the
  capacity error goes on with the registry as the failed call left it.
\<close>

fun addChannels :: "string list \<Rightarrow> channel list \<Rightarrow> channel list" where
  "addChannels [] channels = channels"
| "addChannels (nm # nms) channels =
     (case addChannel nm channels of
        Done _ channels1 \<Rightarrow> addChannels nms channels1
      | Raised _ channels1 \<Rightarrow> addChannels nms channels1)"

text \<open>The invariant of the registry: ids are the positions, and there are at most ten.\<close>

definition dense_ids :: "channel list \<Rightarrow> bool" where
  "dense_ids channels =
     (map id_ch channels = map int [0..<length channels] \<and> length channels \<le> 10)"

text \<open>
  The shape that the specification asks of a method name, the regular expression
  \<^verbatim>\<open>^[^.]+\.[^.]+$\<close>. It is not part of the source, which only counts the parts.
\<close>

definition matchesMethodRegex :: "string \<Rightarrow> bool" where
  "matchesMethodRegex m =
     (let d = takeWhile (\<lambda>c. c \<noteq> CHR ''.'') m; r = dropWhile (\<lambda>c. c \<noteq> CHR ''.'') m
      in d \<noteq> [] \<and> (case r of [] \<Rightarrow> False | _ # e \<Rightarrow> e \<noteq> [] \<and> CHR ''.'' \<notin> set e))"

text \<open>Concrete states and messages for the examples.\<close>

definition w0 :: world where
  "w0 = \<lparr>socket = [], delivered = [], timers = []\<rparr>"

definition ten :: "string list" where
  "ten = [''a'', ''b'', ''c'', ''d'', ''e'', ''f'', ''g'', ''h'', ''i'', ''j'']"

definition chFresh :: channel where
  "chFresh = new_CRDPChannel ''a'' 0"

definition chA :: channel where
  "chA = (new_CRDPChannel ''a'' 0)\<lparr>messageCallbacks := [1, 2]\<rparr>"

definition chB :: channel where
  "chB = (new_CRDPChannel ''b'' 1)\<lparr>messageCallbacks := [3]\<rparr>"

definition resp :: "int \<Rightarrow> message" where
  "resp i = \<lparr>id_msg = Some i, method_msg = None, rest_msg = ''result''\<rparr>"

definition notification :: "string \<Rightarrow> message" where
  "notification m = \<lparr>id_msg = None, method_msg = Some m, rest_msg = ''params''\<rparr>"

definition paused :: message where
  "paused = notification ''Debugger.paused''"

definition older :: message where
  "older = notification ''Debugger.resumed''"

definition enableMsg :: message where
  "enableMsg = \<lparr>id_msg = Some 2, method_msg = Some ''Debugger.enable'', rest_msg = []\<rparr>"

definition enableConstructor :: message where
  "enableConstructor =
     \<lparr>id_msg = Some 2, method_msg = Some ''constructor.enable'', rest_msg = []\<rparr>"

definition enableNoId :: message where
  "enableNoId = \<lparr>id_msg = None, method_msg = Some ''Debugger.enable'', rest_msg = []\<rparr>"

definition chEnabled :: channel where
  "chEnabled = (new_CRDPChannel ''a'' 0)
     \<lparr>messageCallbacks := [1, 2], enabledDomains := {''Debugger''}\<rparr>"

definition chBuffering :: channel where
  "chBuffering = (new_CRDPChannel ''b'' 1)
     \<lparr>messageCallbacks := [3], pendingMessagesForDomain := Some [''Debugger'' \<mapsto> [older]]\<rparr>"

definition chDiscarded :: channel where
  "chDiscarded = (new_CRDPChannel ''c'' 2)
     \<lparr>messageCallbacks := [4], pendingMessagesForDomain := None\<rparr>"

section \<open>Properties\<close>

subsection \<open>Channel id encoding\<close>

lemma js_rem_nonneg: "0 \<le> a \<Longrightarrow> js_rem a 10 = a mod 10"
  by (cases "a = 0") (simp_all add: js_rem_def)

text \<open>
  C1. For a channel id \<open>c\<close> between 0 and 9 and a request id \<open>n \<ge> 0\<close> whose encoded
  form stays in the safe integer range, decoding the encoded id gives back the channel
  id and the request id.
\<close>

theorem encodify_roundtrip:
  assumes "0 \<le> c" and "c \<le> 9" and "0 \<le> n"
    and "encodifyChannel c n \<le> MAX_SAFE_INTEGER"
  shows "decodifyChannelId (encodifyChannel c n) = c \<and> decodifyId (encodifyChannel c n) = n"
proof -
  have nonneg: "0 \<le> n * 10 + c" using assms by simp
  have "js_rem (n * 10 + c) 10 = (n * 10 + c) mod 10"
    using nonneg by (rule js_rem_nonneg)
  also have "\<dots> = c" using assms by simp
  finally have chan: "decodifyChannelId (encodifyChannel c n) = c"
    by (simp add: decodifyChannelId_def encodifyChannel_def)
  have "(n * 10 + c) div 10 = n" using assms by simp
  then have "decodifyId (encodifyChannel c n) = n"
    by (simp add: decodifyId_def encodifyChannel_def)
  with chan show ?thesis by simp
qed

theorem encodify_roundtrip_witness:
  "(0::int) \<le> 3 \<and> (3::int) \<le> 9 \<and> (0::int) \<le> 41 \<and> encodifyChannel 3 41 \<le> MAX_SAFE_INTEGER
   \<and> encodifyChannel 3 41 = 413
   \<and> decodifyChannelId (encodifyChannel 3 41) = 3 \<and> decodifyId (encodifyChannel 3 41) = 41"
proof -
  have h: "encodifyChannel 3 41 \<le> MAX_SAFE_INTEGER"
    by (simp add: encodifyChannel_def MAX_SAFE_INTEGER_def)
  show ?thesis
    using h encodify_roundtrip [of 3 41, OF _ _ _ h]
    by (simp add: encodifyChannel_def)
qed

subsection \<open>Responses go to the channel that asked\<close>

lemma js_rem_decompose:
  assumes "0 \<le> js_rem e 10"
  shows "(e div 10) * 10 + js_rem e 10 = e"
proof (cases "0 \<le> e")
  case True
  then have "js_rem e 10 = e mod 10" by (rule js_rem_nonneg)
  then show ?thesis by simp
next
  case False
  then have neg: "e < 0" by simp
  then have "js_rem e 10 = - ((- e) mod 10)" by (simp add: js_rem_def)
  with assms have z: "(- e) mod 10 = 0" by simp
  then have "js_rem e 10 = 0" using neg by (simp add: js_rem_def)
  moreover from z have "e mod 10 = 0" by presburger
  ultimately show ?thesis by presburger
qed

text \<open>
  C2. An inbound message with an id \<open>e\<close>, on a registry whose ids are the positions:
  when the decoded channel id names a registered channel, the message is handed, with
  its id replaced by the decoded request id, to the listeners of that channel and to
  nobody else (the trace grows by exactly these calls, the registry and the socket are
  untouched), and the decoded pair encodes back to \<open>e\<close>; when it names no registered
  channel, a critical error is raised and nothing changes.
\<close>

theorem response_routing:
  assumes "id_msg message = Some e"
    and "map id_ch channels = map int [0..<length channels]"
  shows "(0 \<le> decodifyChannelId e \<and> decodifyChannelId e < int (length channels) \<longrightarrow>
            onMessage message (channels, w)
              = Done () (channels,
                  w\<lparr>delivered := delivered w @
                      map (\<lambda>cb. (decodifyChannelId e, cb, message\<lparr>id_msg := Some (decodifyId e)\<rparr>))
                        (messageCallbacks (channels ! nat (decodifyChannelId e)))\<rparr>)
            \<and> encodifyChannel (decodifyChannelId e) (decodifyId e) = e)
       \<and> (\<not> (0 \<le> decodifyChannelId e \<and> decodifyChannelId e < int (length channels)) \<longrightarrow>
            onMessage message (channels, w)
              = Raised (CriticalError (ChannelNotFound e message)) (channels, w))"
proof (cases "0 \<le> decodifyChannelId e \<and> decodifyChannelId e < int (length channels)")
  case True
  then have idx: "nat (decodifyChannelId e) < length channels" by linarith
  have "id_ch (channels ! nat (decodifyChannelId e))
          = map id_ch channels ! nat (decodifyChannelId e)"
    using idx by simp
  also have "\<dots> = int ([0..<length channels] ! nat (decodifyChannelId e))"
    using idx by (simp add: assms(2))
  also have "\<dots> = decodifyChannelId e" using idx True by simp
  finally have idc: "id_ch (channels ! nat (decodifyChannelId e)) = decodifyChannelId e" .
  have enc: "encodifyChannel (decodifyChannelId e) (decodifyId e) = e"
    using True js_rem_decompose [of e]
    by (simp add: encodifyChannel_def decodifyChannelId_def decodifyId_def)
  show ?thesis
    using True assms(1) idc enc
    by (simp add: onMessage_def onResponseMessage_def element_at_def callMessageCallbacks_def)
next
  case False
  then show ?thesis
    using assms(1)
    by (auto simp add: onMessage_def onResponseMessage_def element_at_def)
qed

theorem response_routing_witness:
  "id_msg (resp 71) = Some 71
   \<and> map id_ch [chA, chB] = map int [0..<length [chA, chB]]
   \<and> onMessage (resp 71) ([chA, chB], w0)
       = Done () ([chA, chB], w0\<lparr>delivered := [(1, 3, resp 7)]\<rparr>)
   \<and> encodifyChannel 1 7 = 71
   \<and> id_msg (resp 75) = Some 75
   \<and> onMessage (resp 75) ([chA, chB], w0)
       = Raised (CriticalError (ChannelNotFound 75 (resp 75))) ([chA, chB], w0)"
proof -
  have ids: "map id_ch [chA, chB] = map int [0..<length [chA, chB]]"
    by (simp add: chA_def chB_def new_CRDPChannel_def upt_rec)
  have d1: "decodifyChannelId 71 = 1" and d2: "decodifyId 71 = 7"
    and d3: "decodifyChannelId 75 = 5"
    by (simp_all add: decodifyChannelId_def decodifyId_def js_rem_def)
  have cb: "messageCallbacks chB = [3]" by (simp add: chB_def)
  have a: "onMessage (resp 71) ([chA, chB], w0)
       = Done () ([chA, chB], w0\<lparr>delivered := [(1, 3, resp 7)]\<rparr>) \<and> encodifyChannel 1 7 = 71"
    using response_routing [of "resp 71" 71 "[chA, chB]" w0, OF _ ids]
    by (simp add: d1 d2 cb resp_def w0_def)
  have b: "onMessage (resp 75) ([chA, chB], w0)
       = Raised (CriticalError (ChannelNotFound 75 (resp 75))) ([chA, chB], w0)"
    using response_routing [of "resp 75" 75 "[chA, chB]" w0, OF _ ids]
    by (simp add: d3 resp_def)
  from ids a b show ?thesis by (simp add: resp_def)
qed

subsection \<open>The registry of channels\<close>

lemma addChannel_dense:
  "dense_ids channels \<Longrightarrow>
   addChannel nm channels = Done r cs \<or> addChannel nm channels = Raised e cs \<Longrightarrow>
   dense_ids cs"
  by (auto simp: addChannel_def dense_ids_def new_CRDPChannel_def Let_def split: if_splits)

lemma addChannels_dense: "dense_ids channels \<Longrightarrow> dense_ids (addChannels nms channels)"
proof (induction nms arbitrary: channels)
  case Nil
  then show ?case by simp
next
  case (Cons nm nms)
  show ?case
  proof (cases "addChannel nm channels")
    case (Done r cs)
    with Cons.prems have "dense_ids cs" using addChannel_dense by blast
    with Done Cons.IH show ?thesis by simp
  next
    case (Raised e cs)
    with Cons.prems have "dense_ids cs" using addChannel_dense by blast
    with Raised Cons.IH show ?thesis by simp
  qed
qed

text \<open>
  C8. With ten (or more) channels registered, \<open>addChannel\<close> raises and leaves the
  registry as it was; with fewer, it appends one channel whose id is the previous number
  of channels. After any sequence of \<open>addChannel\<close> calls on a new multiplexor the ids
  are \<open>0, 1, \<dots>, length - 1\<close> in creation order, and there are at most ten channels.
\<close>

theorem channel_capacity:
  "(10 \<le> length channels \<longrightarrow> addChannel nm channels = Raised CapacityError channels)
   \<and> (length channels < 10 \<longrightarrow>
        (\<exists>ch. addChannel nm channels = Done (Some ch) (channels @ [ch])
              \<and> id_ch ch = int (length channels)))
   \<and> map id_ch (addChannels nms (fst (new_CRDPMultiplexor w)))
        = map int [0..<length (addChannels nms (fst (new_CRDPMultiplexor w)))]
   \<and> length (addChannels nms (fst (new_CRDPMultiplexor w))) \<le> 10"
proof -
  have "dense_ids (fst (new_CRDPMultiplexor w))"
    by (simp add: dense_ids_def new_CRDPMultiplexor_def)
  then have "dense_ids (addChannels nms (fst (new_CRDPMultiplexor w)))"
    by (rule addChannels_dense)
  then show ?thesis
    by (simp add: dense_ids_def addChannel_def new_CRDPChannel_def Let_def)
qed

theorem channel_capacity_witness:
  "10 \<le> length (addChannels ten [])
   \<and> addChannel ''k'' (addChannels ten []) = Raised CapacityError (addChannels ten [])
   \<and> length ([] :: channel list) < 10
   \<and> (\<exists>ch. addChannel ''a'' [] = Done (Some ch) [ch] \<and> id_ch ch = 0)
   \<and> map id_ch (addChannels (ten @ [''k'']) (fst (new_CRDPMultiplexor w0)))
        = [0, 1, 2, 3, 4, 5, 6, 7, 8, 9]"
proof -
  have len: "length (addChannels ten []) = 10"
    by (simp add: ten_def addChannel_def Let_def)
  have full: "addChannel ''k'' (addChannels ten []) = Raised CapacityError (addChannels ten [])"
    using channel_capacity [of "addChannels ten []" "''k''" "[]" w0] len by simp
  have first: "\<exists>ch. addChannel ''a'' [] = Done (Some ch) [ch] \<and> id_ch ch = 0"
    using channel_capacity [of "[]" "''a''" "[]" w0] by simp
  have ids: "map id_ch (addChannels (ten @ [''k'']) (fst (new_CRDPMultiplexor w0)))
        = [0, 1, 2, 3, 4, 5, 6, 7, 8, 9]"
    by (simp add: ten_def addChannel_def Let_def new_CRDPMultiplexor_def new_CRDPChannel_def)
  from len full first ids show ?thesis by simp
qed

subsection \<open>Removing a listener\<close>

lemma indexOf_absent: "x \<notin> set xs \<Longrightarrow> indexOf xs x = - 1"
  by (induction xs) (auto simp: Let_def)

lemma splice_last: "xs \<noteq> [] \<Longrightarrow> splice_js xs (- 1) 1 = butlast xs"
proof -
  assume ne: "xs \<noteq> []"
  then have len: "1 \<le> int (length xs)" by (cases xs) simp_all
  have n: "nat (int (length xs) - 1) = length xs - 1" by simp
  show ?thesis
    using ne len by (simp add: splice_js_def Let_def butlast_conv_take max_def min_def n)
qed

text \<open>
  C10. On a channel with at least one \<^verbatim>\<open>'message'\<close> listener, removing a callback
  that is not in the list removes the listener registered last: \<open>indexOf\<close> answers
  \<open>-1\<close>, and \<open>splice(-1, 1)\<close> cuts the last element.
\<close>

theorem remove_absent_listener:
  assumes "messageCallbacks ch \<noteq> []" and "cb \<notin> set (messageCallbacks ch)"
  shows "Channel_removeListener ''message'' cb (ch, w)
           = (ch\<lparr>messageCallbacks := butlast (messageCallbacks ch)\<rparr>, w)"
proof -
  have "indexOf (messageCallbacks ch) cb = - 1"
    using assms(2) by (rule indexOf_absent)
  moreover have "splice_js (messageCallbacks ch) (- 1) 1 = butlast (messageCallbacks ch)"
    using assms(1) by (rule splice_last)
  ultimately show ?thesis
    by (simp add: Channel_removeListener_def)
qed

theorem remove_absent_listener_witness:
  "messageCallbacks chA \<noteq> [] \<and> 3 \<notin> set (messageCallbacks chA)
   \<and> messageCallbacks (fst (Channel_removeListener ''message'' 3 (chA, w0))) = [1]"
  using remove_absent_listener [of chA 3 w0]
  by (simp add: chA_def new_CRDPChannel_def)

subsection \<open>Notifications: deliver, buffer or drop\<close>

lemma split_on_nonempty: "split_on c s \<noteq> []"
  by (induction s) (auto split: list.splits)

lemma split_on_absent: "c \<notin> set s \<Longrightarrow> split_on c s = [s]"
  by (induction s) auto

lemma split_on_first: "c \<notin> set d \<Longrightarrow> split_on c (d @ c # r) = d # split_on c r"
  by (induction d) auto

lemma length_split_on: "length (split_on c s) = Suc (count_list s c)"
  using split_on_nonempty [of c]
  by (induction s) (auto split: list.splits)

lemma extractDomain_two_parts:
  assumes "CHR ''.'' \<notin> set D" and "CHR ''.'' \<notin> set E"
  shows "extractDomain (D @ CHR ''.'' # E) = Inr D"
  using assms by (simp add: extractDomain_def split_on_first split_on_absent)

lemma extractDomain_error:
  "count_list m CHR ''.'' \<noteq> 1 \<Longrightarrow>
   extractDomain m = Inl (CriticalError (MethodNotTwoParts m))"
  by (simp add: extractDomain_def length_split_on)

text \<open>
  A queue is stored under a key that is not found through the prototype: the store
  then never meets an inherited value.
\<close>

lemma storeMessageForLater_own:
  "\<not> objectPrototypeMember D \<Longrightarrow>
   storeMessageForLater D m p = Inr (p(D \<mapsto> (case p D of None \<Rightarrow> [] | Some q \<Rightarrow> q) @ [m]))"
  by (cases "p D") (simp_all add: storeMessageForLater_def getProperty_def)

text \<open>One channel: the call never throws, whatever the domain.\<close>

lemma callDomainMessageCallbacks_Done:
  "callDomainMessageCallbacks D m (ch, w) =
     Done ()
       (if isEnabledDomain (enabledDomains ch) D then (ch, callMessageCallbacks ch m w)
        else (case pendingMessagesForDomain ch of
                None \<Rightarrow> (ch, w)
              | Some p \<Rightarrow>
                  (ch\<lparr>pendingMessagesForDomain :=
                        Some (p(D \<mapsto> (case p D of None \<Rightarrow> [] | Some q \<Rightarrow> q) @ [m]))\<rparr>, w)))"
proof (cases "isEnabledDomain (enabledDomains ch) D")
  case True
  then show ?thesis by (simp add: callDomainMessageCallbacks_def)
next
  case False
  then have "\<not> objectPrototypeMember D" by (simp add: isEnabledDomain_def)
  then have "\<And>p. storeMessageForLater D m p
      = Inr (p(D \<mapsto> (case p D of None \<Rightarrow> [] | Some q \<Rightarrow> q) @ [m]))"
    by (rule storeMessageForLater_own)
  with False show ?thesis
    by (simp add: callDomainMessageCallbacks_def split: option.splits)
qed

text \<open>The loop over the channels, channel by channel.\<close>

lemma notifyChannels_map:
  "notifyChannels D message channels w =
     Done ()
     (map (\<lambda>ch. if isEnabledDomain (enabledDomains ch) D then ch
                 else (case pendingMessagesForDomain ch of
                         None \<Rightarrow> ch
                       | Some p \<Rightarrow> ch\<lparr>pendingMessagesForDomain :=
                            Some (p(D \<mapsto> (case p D of None \<Rightarrow> [] | Some q \<Rightarrow> q) @ [message]))\<rparr>))
        channels,
      w\<lparr>delivered := delivered w @
          concat (map (\<lambda>ch. if isEnabledDomain (enabledDomains ch) D
                             then map (\<lambda>cb. (id_ch ch, cb, message)) (messageCallbacks ch)
                             else []) channels)\<rparr>)"
proof (induction channels arbitrary: w)
  case Nil
  then show ?case by simp
next
  case (Cons ch chs)
  show ?case
    by (simp add: Cons.IH callDomainMessageCallbacks_Done callMessageCallbacks_def
        split: option.splits)
qed

text \<open>
  What the code does with a notification \<open>D.E\<close>, for every \<open>D\<close>: the test that
  decides between delivering and buffering is \<open>isEnabledDomain\<close>, which also holds of
  every name found through the prototype.
\<close>

lemma notification_fanout_lookup:
  assumes "id_msg message = None"
    and "method_msg message = Some (D @ CHR ''.'' # E)"
    and "CHR ''.'' \<notin> set D" and "CHR ''.'' \<notin> set E"
  shows "onMessage message (channels, w) =
     Done ()
       (map (\<lambda>ch. if isEnabledDomain (enabledDomains ch) D then ch
                   else (case pendingMessagesForDomain ch of
                           None \<Rightarrow> ch
                         | Some p \<Rightarrow> ch\<lparr>pendingMessagesForDomain :=
                              Some (p(D \<mapsto> (case p D of None \<Rightarrow> [] | Some q \<Rightarrow> q) @ [message]))\<rparr>))
          channels,
        w\<lparr>delivered := delivered w @
            concat (map (\<lambda>ch. if isEnabledDomain (enabledDomains ch) D
                               then map (\<lambda>cb. (id_ch ch, cb, message)) (messageCallbacks ch)
                               else []) channels)\<rparr>)"
proof -
  have dom: "extractDomain (D @ CHR ''.'' # E) = Inr D"
    using assms(3,4) by (rule extractDomain_two_parts)
  have "onMessage message (channels, w) = notifyChannels D message channels w"
    using assms(1,2) dom by (simp add: onMessage_def onDomainNotification_def)
  then show ?thesis by (simp only: notifyChannels_map)
qed

text \<open>
  For a domain that is not the name of a member of \<^verbatim>\<open>Object.prototype\<close> the code does
  what C3 says: a channel that has enabled \<open>D\<close> is unchanged and each of its listeners
  is called; a channel that has not, with a live buffer, gets the payload appended to
  the queue of \<open>D\<close> and no listener is called; a channel whose buffer was discarded is
  unchanged, and nothing raises.
\<close>

lemma notification_fanout_own_keys:
  assumes "id_msg message = None"
    and "method_msg message = Some (D @ CHR ''.'' # E)"
    and "CHR ''.'' \<notin> set D" and "CHR ''.'' \<notin> set E"
    and "\<not> objectPrototypeMember D"
  shows "onMessage message (channels, w) =
     Done ()
       (map (\<lambda>ch. if D \<in> enabledDomains ch then ch
                   else (case pendingMessagesForDomain ch of
                           None \<Rightarrow> ch
                         | Some p \<Rightarrow> ch\<lparr>pendingMessagesForDomain :=
                              Some (p(D \<mapsto> (case p D of None \<Rightarrow> [] | Some q \<Rightarrow> q) @ [message]))\<rparr>))
          channels,
        w\<lparr>delivered := delivered w @
            concat (map (\<lambda>ch. if D \<in> enabledDomains ch
                               then map (\<lambda>cb. (id_ch ch, cb, message)) (messageCallbacks ch)
                               else []) channels)\<rparr>)"
  using notification_fanout_lookup [OF assms(1-4), of channels w] assms(5)
  by (simp add: isEnabledDomain_def)

lemma notification_fanout_example:
  "onMessage paused ([chEnabled, chBuffering, chDiscarded], w0) =
       Done ()
         ([chEnabled,
           chBuffering\<lparr>pendingMessagesForDomain := Some [''Debugger'' \<mapsto> [older, paused]]\<rparr>,
           chDiscarded],
          w0\<lparr>delivered := [(0, 1, paused), (0, 2, paused)]\<rparr>)"
proof -
  have m: "method_msg paused = Some (''Debugger'' @ CHR ''.'' # ''paused'')"
    by (simp add: paused_def notification_def)
  have i: "id_msg paused = None" by (simp add: paused_def notification_def)
  have d: "CHR ''.'' \<notin> set ''Debugger''" and e: "CHR ''.'' \<notin> set ''paused''" by simp_all
  have n: "\<not> objectPrototypeMember ''Debugger''" by (simp add: objectPrototypeMember_def)
  show ?thesis
    using notification_fanout_own_keys [OF i m d e n, of "[chEnabled, chBuffering, chDiscarded]" w0]
    by (simp add: chEnabled_def chBuffering_def chDiscarded_def new_CRDPChannel_def w0_def)
qed

text \<open>
  C3. The claim is that a channel that has not enabled the domain of a notification,
  and whose buffer is live, queues the payload and delivers nothing. Channel \<open>b\<close> has
  one listener, a live and empty buffer and no enabled domain. The notification
  \<^verbatim>\<open>{method: "constructor.paused"}\<close> is delivered to its listener at once and is not
  queued: \<^verbatim>\<open>this._enabledDomains["constructor"]\<close> finds \<^verbatim>\<open>Object\<close> through the
  prototype, which is truthy.
\<close>

theorem prototype_domain_delivered:
  "''constructor'' \<notin> enabledDomains chB
   \<and> pendingMessagesForDomain chB = Some Map.empty
   \<and> onMessage (notification ''constructor.paused'') ([chB], w0)
       = Done () ([chB], w0\<lparr>delivered := [(1, 3, notification ''constructor.paused'')]\<rparr>)"
  by (simp add: onMessage_def onDomainNotification_def extractDomain_def
      callDomainMessageCallbacks_def callMessageCallbacks_def isEnabledDomain_def
      objectPrototypeMember_def notification_def chB_def new_CRDPChannel_def w0_def Let_def)

subsection \<open>Enabling a domain flushes its queue\<close>

lemma endsWith_append: "endsWith (D @ sfx) sfx"
  by (simp add: endsWith_def)

lemma isEnabledDomain_enableDomain: "isEnabledDomain (enableDomain own D) D"
  by (simp add: isEnabledDomain_def enableDomain_def objectPrototypeMember_def)

lemma forEachPending_enabled:
  "isEnabledDomain (enabledDomains ch) D \<Longrightarrow>
   forEachPending D msgs (ch, w) =
     Done () (ch, w\<lparr>delivered := delivered w @
            concat (map (\<lambda>m. map (\<lambda>cb. (id_ch ch, cb, m)) (messageCallbacks ch)) msgs)\<rparr>)"
  by (induction msgs arbitrary: w)
     (simp_all add: callDomainMessageCallbacks_Done callMessageCallbacks_def)

text \<open>
  For a domain that is not the name of a member of \<^verbatim>\<open>Object.prototype\<close> the code does
  what C4 says. On a channel whose buffer is live, sending the request \<open>D.enable\<close>
  (with an id) marks \<open>D\<close> enabled, writes the request with its encoded id to the
  socket, and then calls the listeners with every payload queued under \<open>D\<close>, in the
  order of arrival, each payload once per listener, and removes the queue of \<open>D\<close>.
  When the channel has no listener, nothing is delivered and the queue stays as it was.
\<close>

lemma enable_flush_own_keys:
  assumes "id_msg message = Some n"
    and "method_msg message = Some (D @ ''.enable'')"
    and "CHR ''.'' \<notin> set D"
    and "pendingMessagesForDomain ch = Some pending"
    and "\<not> objectPrototypeMember D"
  shows "Channel_send message (ch, w) =
     Done ()
       (ch\<lparr>enabledDomains := insert D (enabledDomains ch),
           pendingMessagesForDomain :=
             Some (if messageCallbacks ch = [] then pending else pending(D := None))\<rparr>,
        w\<lparr>socket := socket w @
             [SocketSend (message\<lparr>id_msg := Some (encodifyChannel (id_ch ch) n)\<rparr>)],
          delivered := delivered w @
             concat (map (\<lambda>m. map (\<lambda>cb. (id_ch ch, cb, m)) (messageCallbacks ch))
                       (case pending D of None \<Rightarrow> [] | Some q \<Rightarrow> q))\<rparr>)"
proof -
  let ?ch1 = "ch\<lparr>enabledDomains := insert D (enabledDomains ch)\<rparr>"
  let ?w1 = "w\<lparr>socket := socket w @
             [SocketSend (message\<lparr>id_msg := Some (encodifyChannel (id_ch ch) n)\<rparr>)]\<rparr>"
  have en: "isEnableMethod (method_msg message)"
    using endsWith_append [of D "''.enable''"] by (simp add: isEnableMethod_def assms(2))
  have dom: "extractDomain (D @ ''.enable'') = Inr D"
    using extractDomain_two_parts [of D "''enable''"] assms(3) by simp
  have np: "D \<noteq> ''__proto__''"
    using assms(5) by (auto simp: objectPrototypeMember_def)
  have mark: "enableDomain (enabledDomains ch) D = insert D (enabledDomains ch)"
    using np by (simp add: enableDomain_def)
  have snd: "Multiplexor_send ?ch1 message w = Done () ?w1"
    by (simp add: Multiplexor_send_def assms(1))
  have step: "Channel_send message (ch, w) = sendUnsentPendingMessages D (?ch1, ?w1)"
    using en dom snd by (simp add: Channel_send_def assms(2) mark Let_def)
  have get: "getProperty pending D = (case pending D of None \<Rightarrow> Undefined | Some q \<Rightarrow> Own q)"
    using assms(5) by (simp add: getProperty_def split: option.splits)
  show ?thesis
  proof (cases "pending D")
    case None
    then have "pending(D := None) = pending" by (simp add: fun_upd_idem)
    with None show ?thesis
      by (simp add: step sendUnsentPendingMessages_def assms(4) get)
  next
    case (Some q)
    show ?thesis
    proof (cases "messageCallbacks ch = []")
      case True
      then show ?thesis
        by (simp add: step sendUnsentPendingMessages_def assms(4) Some get)
    next
      case False
      have "isEnabledDomain
              (enabledDomains (?ch1\<lparr>pendingMessagesForDomain := Some (pending(D := None))\<rparr>)) D"
        by (simp add: isEnabledDomain_def)
      then have "forEachPending D q
              (?ch1\<lparr>pendingMessagesForDomain := Some (pending(D := None))\<rparr>, ?w1)
            = Done () (?ch1\<lparr>pendingMessagesForDomain := Some (pending(D := None))\<rparr>,
               ?w1\<lparr>delivered := delivered ?w1 @
                 concat (map (\<lambda>m. map (\<lambda>cb. (id_ch ch, cb, m)) (messageCallbacks ch)) q)\<rparr>)"
        using forEachPending_enabled
          [of "?ch1\<lparr>pendingMessagesForDomain := Some (pending(D := None))\<rparr>" D q ?w1]
        by simp
      then show ?thesis
        using False by (simp add: step sendUnsentPendingMessages_def assms(4) Some get)
    qed
  qed
qed

lemma enable_flush_example:
  "Channel_send enableMsg
        (chBuffering\<lparr>messageCallbacks := [3, 5],
           pendingMessagesForDomain := Some [''Debugger'' \<mapsto> [older, paused]]\<rparr>, w0) =
       Done ()
         (chBuffering\<lparr>messageCallbacks := [3, 5],
             enabledDomains := {''Debugger''},
             pendingMessagesForDomain := Some Map.empty\<rparr>,
          w0\<lparr>socket := [SocketSend (enableMsg\<lparr>id_msg := Some 21\<rparr>)],
             delivered := [(1, 3, older), (1, 5, older), (1, 3, paused), (1, 5, paused)]\<rparr>)"
proof -
  have i: "id_msg enableMsg = Some 2"
    and m: "method_msg enableMsg = Some (''Debugger'' @ ''.enable'')"
    by (simp_all add: enableMsg_def)
  have d: "CHR ''.'' \<notin> set ''Debugger''" by simp
  have n: "\<not> objectPrototypeMember ''Debugger''" by (simp add: objectPrototypeMember_def)
  have p1: "pendingMessagesForDomain (chBuffering\<lparr>messageCallbacks := [3, 5],
         pendingMessagesForDomain := Some [''Debugger'' \<mapsto> [older, paused]]\<rparr>)
       = Some [''Debugger'' \<mapsto> [older, paused]]" by simp
  show ?thesis
    using enable_flush_own_keys [OF i m d p1 n, of w0]
    by (simp add: chBuffering_def new_CRDPChannel_def w0_def encodifyChannel_def)
qed

text \<open>
  C4. The claim is that sending an enable request on a channel with a live buffer and a
  listener delivers what is queued and completes. Channel \<open>b\<close> (id 1) has one
  listener and a live, empty buffer. Sending
  \<^verbatim>\<open>{id: 2, method: "constructor.enable"}\<close> marks the domain, writes the request with
  id 21 to the socket, and then raises a \<^verbatim>\<open>TypeError\<close>:
  \<^verbatim>\<open>this._pendingMessagesForDomain["constructor"]\<close> finds \<^verbatim>\<open>Object\<close> through the
  prototype, which is not \<^verbatim>\<open>undefined\<close> and has no \<^verbatim>\<open>forEach\<close>.
\<close>

theorem prototype_domain_enable_raises:
  "pendingMessagesForDomain chB = Some Map.empty
   \<and> messageCallbacks chB = [3]
   \<and> Channel_send enableConstructor (chB, w0) =
       Raised TypeError
         (chB\<lparr>enabledDomains := {''constructor''}\<rparr>,
          w0\<lparr>socket := [SocketSend (enableConstructor\<lparr>id_msg := Some 21\<rparr>)]\<rparr>)"
  by (simp add: Channel_send_def isEnableMethod_def endsWith_def extractDomain_def
      Multiplexor_send_def sendUnsentPendingMessages_def encodifyChannel_def
      enableDomain_def getProperty_def objectPrototypeMember_def
      enableConstructor_def chB_def new_CRDPChannel_def w0_def Let_def)

subsection \<open>Sending an enable request after the buffer was discarded\<close>

text \<open>
  For every channel whose buffer was discarded, a well-formed enable request with an id
  is forwarded and then the flush raises: \<open>sendUnsentPendingMessages\<close> indexes the
  buffer without the test for \<^verbatim>\<open>null\<close> that \<open>callDomainMessageCallbacks\<close> makes.
\<close>

lemma send_after_discard:
  assumes "id_msg message = Some n" and "method_msg message = Some (D @ ''.enable'')"
    and "CHR ''.'' \<notin> set D" and "pendingMessagesForDomain ch = None"
  shows "Channel_send message (ch, w) =
     Raised TypeError
       (ch\<lparr>enabledDomains := enableDomain (enabledDomains ch) D\<rparr>,
        w\<lparr>socket := socket w @
             [SocketSend (message\<lparr>id_msg := Some (encodifyChannel (id_ch ch) n)\<rparr>)]\<rparr>)"
proof -
  have en: "isEnableMethod (method_msg message)"
    using endsWith_append [of D "''.enable''"] by (simp add: isEnableMethod_def assms(2))
  have dom: "extractDomain (D @ ''.enable'') = Inr D"
    using extractDomain_two_parts [of D "''enable''"] assms(3) by simp
  show ?thesis
    using en dom
    by (simp add: Channel_send_def assms Multiplexor_send_def sendUnsentPendingMessages_def Let_def)
qed

text \<open>
  C5. The claim is that such a send completes without raising. On the channel \<open>c\<close>
  (id 2) after its timer has fired, sending \<^verbatim>\<open>{id: 2, method: "Debugger.enable"}\<close>
  writes the request with id 22 to the socket and then raises a \<^verbatim>\<open>TypeError\<close>.
\<close>

theorem send_after_discard_raises:
  "discardUnsentPendingMessages (chDiscarded\<lparr>pendingMessagesForDomain := Some Map.empty\<rparr>)
     = Done () chDiscarded
   \<and> Channel_send enableMsg (chDiscarded, w0) =
       Raised TypeError
         (chDiscarded\<lparr>enabledDomains := {''Debugger''}\<rparr>,
          w0\<lparr>socket := [SocketSend (enableMsg\<lparr>id_msg := Some 22\<rparr>)]\<rparr>)"
  by (simp add: Channel_send_def isEnableMethod_def endsWith_def extractDomain_def
      Multiplexor_send_def sendUnsentPendingMessages_def encodifyChannel_def
      discardUnsentPendingMessages_def enableDomain_def
      enableMsg_def chDiscarded_def new_CRDPChannel_def w0_def Let_def)

subsection \<open>Arming the discard timer\<close>

text \<open>
  Registering a \<^verbatim>\<open>'message'\<close> listener arms a timer exactly when the list of
  listeners is empty at that moment.
\<close>

lemma Channel_on_timers:
  "timers (snd (Channel_on ''message'' cb (ch, w))) =
     (if messageCallbacks ch = [] then timers w @ [(id_ch ch, timeToPreserveMessagesInMillis)]
      else timers w)"
  by (simp add: Channel_on_def Let_def)

text \<open>A timer that fires on a buffer already discarded raises in its log line.\<close>

lemma discard_twice:
  "pendingMessagesForDomain ch = None \<Longrightarrow>
   discardUnsentPendingMessages ch = Raised TypeError ch"
  by (simp add: discardUnsentPendingMessages_def)

text \<open>
  C6. The claim is that one timer is armed per channel, at the first registration ever.
  Registering listener 1, removing it, and registering listener 2 on a new channel arms
  two timers: the list is empty again at the second registration.
\<close>

theorem discard_timer_rearmed:
  "timers (snd (Channel_on ''message'' 2
      (Channel_removeListener ''message'' 1
        (Channel_on ''message'' 1 (chFresh, w0)))))
   = [(0, 60000), (0, 60000)]"
  by (simp add: Channel_on_def Channel_removeListener_def splice_js_def Let_def
      timeToPreserveMessagesInMillis_def chFresh_def new_CRDPChannel_def w0_def)

subsection \<open>Sending a message without an id\<close>

text \<open>
  C7, as the claim states it, fails: the enable-shaped notification
  \<^verbatim>\<open>{method: "Debugger.enable"}\<close> sent on a new channel raises the critical error and
  writes nothing, but the channel has marked \<open>Debugger\<close> enabled before the error.
\<close>

theorem send_without_id_marks_domain:
  "id_msg enableNoId = None
   \<and> Channel_send enableNoId (chFresh, w0) =
       Raised (CriticalError (SentWithoutId ''a'' enableNoId))
         (chFresh\<lparr>enabledDomains := {''Debugger''}\<rparr>, w0)
   \<and> ''Debugger'' \<notin> enabledDomains chFresh
   \<and> ''Debugger'' \<in> enabledDomains (chFresh\<lparr>enabledDomains := {''Debugger''}\<rparr>)"
  by (simp add: Channel_send_def isEnableMethod_def endsWith_def extractDomain_def
      Multiplexor_send_def enableDomain_def enableNoId_def chFresh_def new_CRDPChannel_def
      Let_def)

text \<open>
  C7, amended. Every message without an id that a channel sends raises a critical
  error, and the socket, the trace of deliveries and the timers are as before. A
  message that is not enable-shaped, and an enable-shaped one whose method does not
  have exactly two parts, leave the channel as it was. An enable-shaped message with a
  two-part method leaves the channel with the domain of the message marked enabled and
  nothing else changed: its pending buffers, its listeners and the other enabled
  domains are as before.
\<close>

theorem send_without_id:
  assumes "id_msg message = None"
  shows "(\<not> isEnableMethod (method_msg message) \<longrightarrow>
            Channel_send message (ch, w)
              = Raised (CriticalError (SentWithoutId (name_ch ch) message)) (ch, w))
       \<and> (\<forall>m. isEnableMethod (method_msg message) \<and> method_msg message = Some m \<longrightarrow>
            (case extractDomain m of
               Inl e \<Rightarrow>
                 Channel_send message (ch, w)
                   = Raised (CriticalError (MethodNotTwoParts m)) (ch, w)
             | Inr d \<Rightarrow>
                 Channel_send message (ch, w)
                   = Raised (CriticalError (SentWithoutId (name_ch ch) message))
                       (ch\<lparr>enabledDomains := enableDomain (enabledDomains ch) d\<rparr>, w)
                 \<and> isEnabledDomain (enableDomain (enabledDomains ch) d) d
                 \<and> (\<forall>d'. d' \<noteq> d \<longrightarrow>
                       (d' \<in> enableDomain (enabledDomains ch) d) = (d' \<in> enabledDomains ch))))"
proof (intro conjI impI allI)
  assume "\<not> isEnableMethod (method_msg message)"
  then show "Channel_send message (ch, w)
      = Raised (CriticalError (SentWithoutId (name_ch ch) message)) (ch, w)"
    by (simp add: Channel_send_def Multiplexor_send_def assms)
next
  fix m
  assume a: "isEnableMethod (method_msg message) \<and> method_msg message = Some m"
  then have en: "isEnableMethod (method_msg message)" by (rule conjunct1)
  from a have mm: "method_msg message = Some m" by (rule conjunct2)
  show "case extractDomain m of
          Inl e \<Rightarrow>
            Channel_send message (ch, w)
              = Raised (CriticalError (MethodNotTwoParts m)) (ch, w)
        | Inr d \<Rightarrow>
            Channel_send message (ch, w)
              = Raised (CriticalError (SentWithoutId (name_ch ch) message))
                  (ch\<lparr>enabledDomains := enableDomain (enabledDomains ch) d\<rparr>, w)
            \<and> isEnabledDomain (enableDomain (enabledDomains ch) d) d
            \<and> (\<forall>d'. d' \<noteq> d \<longrightarrow>
                  (d' \<in> enableDomain (enabledDomains ch) d) = (d' \<in> enabledDomains ch))"
  proof (cases "extractDomain m")
    case (Inl e)
    then have e: "e = CriticalError (MethodNotTwoParts m)"
      by (auto simp: extractDomain_def Let_def split: if_splits)
    show ?thesis
      using en Inl e by (simp add: Channel_send_def mm)
  next
    case (Inr d)
    have other: "\<forall>d'. d' \<noteq> d \<longrightarrow>
        (d' \<in> enableDomain (enabledDomains ch) d) = (d' \<in> enabledDomains ch)"
      by (simp add: enableDomain_def)
    show ?thesis
      using en Inr other isEnabledDomain_enableDomain [of "enabledDomains ch" d]
      by (simp add: Channel_send_def mm Multiplexor_send_def assms Let_def)
  qed
qed

theorem send_without_id_witness:
  "id_msg (notification ''Debugger.pause'') = None
   \<and> Channel_send (notification ''Debugger.pause'') (chBuffering, w0)
       = Raised (CriticalError (SentWithoutId ''b'' (notification ''Debugger.pause'')))
           (chBuffering, w0)
   \<and> id_msg enableNoId = None
   \<and> isEnableMethod (method_msg enableNoId)
   \<and> method_msg enableNoId = Some ''Debugger.enable''
   \<and> extractDomain ''Debugger.enable'' = Inr ''Debugger''
   \<and> Channel_send enableNoId (chFresh, w0)
       = Raised (CriticalError (SentWithoutId ''a'' enableNoId))
           (chFresh\<lparr>enabledDomains := {''Debugger''}\<rparr>, w0)
   \<and> isEnabledDomain {''Debugger''} ''Debugger''
   \<and> id_msg (notification ''a.b.enable'') = None
   \<and> isEnableMethod (method_msg (notification ''a.b.enable''))
   \<and> Channel_send (notification ''a.b.enable'') (chBuffering, w0)
       = Raised (CriticalError (MethodNotTwoParts ''a.b.enable'')) (chBuffering, w0)"
proof -
  have i: "id_msg (notification ''Debugger.pause'') = None" by (simp add: notification_def)
  have n: "\<not> isEnableMethod (method_msg (notification ''Debugger.pause''))"
    by (simp add: isEnableMethod_def endsWith_def notification_def)
  have a: "Channel_send (notification ''Debugger.pause'') (chBuffering, w0)
       = Raised (CriticalError (SentWithoutId ''b'' (notification ''Debugger.pause'')))
           (chBuffering, w0)"
    using send_without_id [OF i, of chBuffering w0] n
    by (simp add: chBuffering_def new_CRDPChannel_def)
  have j: "id_msg enableNoId = None" by (simp add: enableNoId_def)
  have en: "isEnableMethod (method_msg enableNoId)"
    by (simp add: isEnableMethod_def endsWith_def enableNoId_def)
  have m: "method_msg enableNoId = Some ''Debugger.enable''" by (simp add: enableNoId_def)
  have x: "extractDomain ''Debugger.enable'' = Inr ''Debugger''"
    by (simp add: extractDomain_def)
  have mark: "enableDomain (enabledDomains chFresh) ''Debugger'' = {''Debugger''}"
    by (simp add: enableDomain_def chFresh_def new_CRDPChannel_def)
  have nm: "name_ch chFresh = ''a''" by (simp add: chFresh_def new_CRDPChannel_def)
  have b: "Channel_send enableNoId (chFresh, w0)
       = Raised (CriticalError (SentWithoutId ''a'' enableNoId))
           (chFresh\<lparr>enabledDomains := {''Debugger''}\<rparr>, w0)
         \<and> isEnabledDomain {''Debugger''} ''Debugger''"
    using send_without_id [OF j, of chFresh w0] en m x
    by (simp add: mark nm)
  then have b1: "Channel_send enableNoId (chFresh, w0)
       = Raised (CriticalError (SentWithoutId ''a'' enableNoId))
           (chFresh\<lparr>enabledDomains := {''Debugger''}\<rparr>, w0)"
    and b2: "isEnabledDomain {''Debugger''} ''Debugger''"
    by simp_all
  have k: "id_msg (notification ''a.b.enable'') = None" by (simp add: notification_def)
  have en3: "isEnableMethod (method_msg (notification ''a.b.enable''))"
    by (simp add: isEnableMethod_def endsWith_def notification_def)
  have m3: "method_msg (notification ''a.b.enable'') = Some ''a.b.enable''"
    by (simp add: notification_def)
  have x3: "extractDomain ''a.b.enable'' = Inl (CriticalError (MethodNotTwoParts ''a.b.enable''))"
    by (simp add: extractDomain_def)
  have c: "Channel_send (notification ''a.b.enable'') (chBuffering, w0)
       = Raised (CriticalError (MethodNotTwoParts ''a.b.enable'')) (chBuffering, w0)"
    using send_without_id [OF k, of chBuffering w0] en3 m3 x3
    by simp
  show ?thesis
    by (intro conjI; fact)
qed

subsection \<open>Malformed method names\<close>

lemma one_dot_split:
  assumes "count_list m c = 1"
  shows "\<exists>D E. m = D @ c # E \<and> c \<notin> set D \<and> c \<notin> set E"
proof -
  from assms have "c \<in> set m" using count_list_0_iff [of m c] by auto
  then obtain D E where m: "m = D @ c # E" and D: "c \<notin> set D"
    by (auto dest: split_list_first)
  from assms m have "count_list E c = 0" by simp
  then have "c \<notin> set E" by (simp add: count_list_0_iff)
  with m D show ?thesis by blast
qed

lemma onMessage_notification:
  assumes "id_msg message = None" and "method_msg message = Some m"
    and "extractDomain m = Inr D"
  shows "onMessage message (channels, w) = notifyChannels D message channels w"
proof (cases "m = []")
  case True
  with assms(3) show ?thesis by (simp add: extractDomain_def)
next
  case False
  then show ?thesis
    by (simp add: onMessage_def onDomainNotification_def assms)
qed

lemma onMessage_malformed:
  assumes "id_msg message = None" and "method_msg message = Some m"
    and "count_list m CHR ''.'' \<noteq> 1"
  shows "onMessage message (channels, w) =
           Raised (CriticalError (if m = [] then NoIdNorMethod message else MethodNotTwoParts m))
             (channels, w)"
proof (cases "m = []")
  case True
  then show ?thesis by (simp add: onMessage_def assms(1,2))
next
  case False
  have "extractDomain m = Inl (CriticalError (MethodNotTwoParts m))"
    using assms(3) by (rule extractDomain_error)
  with False show ?thesis
    by (simp add: onMessage_def onDomainNotification_def assms(1,2))
qed

text \<open>
  C9, as the claim states it, fails: the methods \<^verbatim>\<open>"Debugger."\<close> and
  \<^verbatim>\<open>".paused"\<close> do not match the regular expression, yet each splits into exactly
  two parts and is handled without error; the first is delivered to the listeners of a
  channel that enabled \<open>Debugger\<close>, the second is queued under the empty domain.
\<close>

theorem one_dot_accepted:
  "\<not> matchesMethodRegex ''Debugger.'' \<and> \<not> matchesMethodRegex ''.paused''
   \<and> onMessage (notification ''Debugger.'') ([chEnabled], w0)
       = Done () ([chEnabled],
           w0\<lparr>delivered := [(0, 1, notification ''Debugger.''), (0, 2, notification ''Debugger.'')]\<rparr>)
   \<and> onMessage (notification ''.paused'') ([chEnabled], w0)
       = Done () ([chEnabled\<lparr>pendingMessagesForDomain :=
                      Some [[] \<mapsto> [notification ''.paused'']]\<rparr>], w0)"
  by (simp add: matchesMethodRegex_def onMessage_def onDomainNotification_def extractDomain_def
      callDomainMessageCallbacks_def callMessageCallbacks_def storeMessageForLater_def
      isEnabledDomain_def getProperty_def objectPrototypeMember_def
      notification_def chEnabled_def new_CRDPChannel_def w0_def Let_def)

text \<open>
  C9, amended. For an inbound notification, the test is the number of dots in the
  method: with no dot or more than one dot (the empty method included), handling raises
  a critical error and the channels, the trace of deliveries and the socket are as
  before, so the payload reaches no channel; with exactly one dot the notification is
  handled without error, also when the text before or after the dot is empty.
\<close>

theorem malformed_method_rejected:
  assumes "id_msg message = None" and "method_msg message = Some m"
  shows "(count_list m CHR ''.'' \<noteq> 1 \<longrightarrow>
            (\<exists>c. onMessage message (channels, w) = Raised (CriticalError c) (channels, w)))
       \<and> (count_list m CHR ''.'' = 1 \<longrightarrow>
            (\<exists>s. onMessage message (channels, w) = Done () s))"
proof (intro conjI impI)
  assume "count_list m CHR ''.'' \<noteq> 1"
  with assms have "onMessage message (channels, w) =
           Raised (CriticalError (if m = [] then NoIdNorMethod message else MethodNotTwoParts m))
             (channels, w)"
    by (rule onMessage_malformed)
  then show "\<exists>c. onMessage message (channels, w) = Raised (CriticalError c) (channels, w)"
    by (rule exI)
next
  assume one: "count_list m CHR ''.'' = 1"
  from one_dot_split [OF one] obtain D E where m: "m = D @ CHR ''.'' # E"
    and D: "CHR ''.'' \<notin> set D" and E: "CHR ''.'' \<notin> set E"
    by auto
  have "extractDomain (D @ CHR ''.'' # E) = Inr D"
    using D E by (rule extractDomain_two_parts)
  then have "extractDomain m = Inr D" by (simp only: m)
  with assms have "onMessage message (channels, w) = notifyChannels D message channels w"
    by (rule onMessage_notification)
  then have "onMessage message (channels, w) = Done ()
     (map (\<lambda>ch. if isEnabledDomain (enabledDomains ch) D then ch
                 else (case pendingMessagesForDomain ch of
                         None \<Rightarrow> ch
                       | Some p \<Rightarrow> ch\<lparr>pendingMessagesForDomain :=
                            Some (p(D \<mapsto> (case p D of None \<Rightarrow> [] | Some q \<Rightarrow> q) @ [message]))\<rparr>))
        channels,
      w\<lparr>delivered := delivered w @
          concat (map (\<lambda>ch. if isEnabledDomain (enabledDomains ch) D
                             then map (\<lambda>cb. (id_ch ch, cb, message)) (messageCallbacks ch)
                             else []) channels)\<rparr>)"
    by (simp only: notifyChannels_map)
  then show "\<exists>s. onMessage message (channels, w) = Done () s"
    by (rule exI)
qed

theorem malformed_method_rejected_witness:
  "id_msg (notification ''Debugger'') = None
   \<and> method_msg (notification ''Debugger'') = Some ''Debugger''
   \<and> count_list ''Debugger'' CHR ''.'' \<noteq> 1
   \<and> (\<exists>c. onMessage (notification ''Debugger'') ([chEnabled, chBuffering], w0)
          = Raised (CriticalError c) ([chEnabled, chBuffering], w0))
   \<and> method_msg (notification ''a.b.c'') = Some ''a.b.c''
   \<and> count_list ''a.b.c'' CHR ''.'' \<noteq> 1
   \<and> (\<exists>c. onMessage (notification ''a.b.c'') ([chEnabled, chBuffering], w0)
          = Raised (CriticalError c) ([chEnabled, chBuffering], w0))
   \<and> count_list ''Debugger.paused'' CHR ''.'' = 1
   \<and> (\<exists>s. onMessage (notification ''Debugger.paused'') ([chEnabled, chBuffering], w0)
          = Done () s)"
proof -
  have i: "\<And>m. id_msg (notification m) = None"
    and m: "\<And>m. method_msg (notification m) = Some m"
    by (simp_all add: notification_def)
  have c1: "count_list ''Debugger'' CHR ''.'' \<noteq> 1"
    and c2: "count_list ''a.b.c'' CHR ''.'' \<noteq> 1"
    and c3: "count_list ''Debugger.paused'' CHR ''.'' = 1"
    by simp_all
  have a: "\<exists>c. onMessage (notification ''Debugger'') ([chEnabled, chBuffering], w0)
          = Raised (CriticalError c) ([chEnabled, chBuffering], w0)"
    using malformed_method_rejected [OF i m, of "''Debugger''" "[chEnabled, chBuffering]" w0] c1
    by blast
  have b: "\<exists>c. onMessage (notification ''a.b.c'') ([chEnabled, chBuffering], w0)
          = Raised (CriticalError c) ([chEnabled, chBuffering], w0)"
    using malformed_method_rejected [OF i m, of "''a.b.c''" "[chEnabled, chBuffering]" w0] c2
    by blast
  have c: "\<exists>s. onMessage (notification ''Debugger.paused'') ([chEnabled, chBuffering], w0)
          = Done () s"
    using malformed_method_rejected [OF i m, of "''Debugger.paused''" "[chEnabled, chBuffering]" w0] c3
    by blast
  show ?thesis
    by (intro conjI; fact)
qed

end
